theory Spec2Isabelle
  imports Main "HOL-Library.Word" "HOL-Library.Signed_Division"
begin

unbundle bit_operations_syntax

section \<open>The kernel monitor of kern/monitor.c\<close>

text \<open>
  The monitor is a line interpreter that runs inside the kernel's trap path. This theory
  embeds kern/monitor.c: the tokenizer and dispatcher \<open>runcmd\<close>, the loop \<open>monitor\<close>, and
  the command handlers. Console output and calls into other kernel modules are recorded as
  a list of events, in program order. A function that leaves the monitor for good (panic,
  env_run, a read through a null pointer) ends in an outcome other than \<open>Return\<close>; a loop
  that never ends has the value \<open>None\<close>.
\<close>

subsection \<open>Data\<close>

type_synonym u32 = "32 word"

text \<open>
  struct Trapframe is declared in inc/trap.h; the record has the two fields that the monitor
  touches: it reads \<open>tf_trapno\<close> and reads and writes \<open>tf_eflags\<close>. A pointer
  \<open>struct Trapframe *tf\<close> is a \<open>trapframe option\<close>, \<open>None\<close> for NULL.
\<close>

record trapframe =
  tf_trapno :: u32
  tf_eflags :: u32

datatype arg = W u32 | S string | I int

text \<open>
  \<open>Cprintf fmt args\<close> is one call \<open>cprintf(fmt, args...)\<close>; the format string is kept as
  written, without its final newline, and is not rendered. \<open>PgdirWalk va\<close> is one call
  \<open>pgdir_walk(kern_pgdir, va, 0)\<close>.
\<close>

datatype event =
    Cprintf string "arg list"
  | Readline string
  | PgdirWalk u32
  | DebuginfoEip u32
  | PrintTrapframe trapframe

datatype outcome =
    Return int
  | Panic string
  | EnvRun trapframe
  | NullDeref

type_synonym result = "(event list \<times> outcome) option"

text \<open>struct Eipdebuginfo of kern/kdebug.h, the fields that mon_backtrace prints.\<close>

record eipdebuginfo =
  eip_file :: string
  eip_line :: int
  eip_fn_name :: string
  eip_fn_namelen :: int
  eip_fn_addr :: u32

text \<open>
  The services of other kernel modules that the handlers call, none of them under
  kern/monitor.c: \<open>strtol s base\<close> (lib/string.c; its long result converted to uint32_t),
  \<open>pgdir_walk va\<close> (kern/pmap.c, on kern_pgdir with create = 0; the entry that the returned
  pointer points to, \<open>None\<close> for NULL), \<open>read_ebp\<close> (inc/x86.h), \<open>mem a\<close> (the 32-bit word
  stored at address a), \<open>debuginfo_eip\<close> (kern/kdebug.c) and the linker's symbols.
\<close>

record kern =
  strtol :: "string \<Rightarrow> nat \<Rightarrow> u32"
  pgdir_walk :: "u32 \<Rightarrow> u32 option"
  read_ebp :: u32
  mem :: "u32 \<Rightarrow> u32"
  debuginfo_eip :: "u32 \<Rightarrow> eipdebuginfo"
  sym_start :: u32
  sym_entry :: u32
  sym_etext :: u32
  sym_edata :: u32
  sym_end :: u32

text \<open>
  struct Command. A handler receives argv (the token strings) and tf; its argc is the
  number of entries of argv, which is what runcmd passes.
\<close>

type_synonym handler = "string list \<Rightarrow> trapframe option \<Rightarrow> result"

record command =
  name :: string
  desc :: string
  func :: handler

subsection \<open>Constants of the headers\<close>

text \<open>
  Modelled from the spec: inc/mmu.h, inc/trap.h, inc/memlayout.h and inc/types.h are not
  under src/. The spec names the page size, the breakpoint trap, the single-step trap, the
  three permission bits and the rounding to page granularity; the values are those of the
  x86 architecture, and \<open>ROUNDDOWN(a, n)\<close> is \<open>a - a % n\<close> on uint32_t.
\<close>

definition PGSIZE :: u32 where "PGSIZE = 4096"
definition KERNBASE :: u32 where "KERNBASE = 0xF0000000"
definition T_DEBUG :: u32 where "T_DEBUG = 1"
definition T_BRKPT :: u32 where "T_BRKPT = 3"
definition PTE_P :: u32 where "PTE_P = 0x001"
definition PTE_W :: u32 where "PTE_W = 0x002"
definition PTE_U :: u32 where "PTE_U = 0x004"

definition PTE_ADDR :: "u32 \<Rightarrow> u32" where
  "PTE_ADDR pte = pte AND NOT 0xFFF"

definition ROUNDDOWN :: "u32 \<Rightarrow> u32 \<Rightarrow> u32" where
  "ROUNDDOWN a n = a - a mod n"

definition ROUNDUP :: "u32 \<Rightarrow> u32 \<Rightarrow> u32" where
  "ROUNDUP a n = ROUNDDOWN (a + n - 1) n"

subsection \<open>Tokenizing the command buffer\<close>

text \<open>
  The macros WHITESPACE and MAXARGS of kern/monitor.c: the string of tab, carriage return,
  newline and space, and 16.
\<close>

definition WHITESPACE :: string where
  "WHITESPACE = [CHR 0x09, CHR 0x0D, CHR 0x0A, CHR 0x20]"

definition MAXARGS :: nat where "MAXARGS = 16"

text \<open>
  The buffer is the list of its bytes before the terminating NUL; \<open>peek buf i\<close> is \<open>buf[i]\<close>,
  and any index at or after the end of the list reads the terminator. A pointer into the
  buffer is an index.
\<close>

definition peek :: "string \<Rightarrow> nat \<Rightarrow> char" where
  "peek buf i = (if i < length buf then buf ! i else CHR 0x00)"

text \<open>
  \<open>strchr s c\<close> is true when the C function returns a non-null pointer. Both calls in runcmd
  are guarded by \<open>*buf \<noteq> 0\<close>, so the terminator of s is never looked for.
\<close>

definition strchr :: "string \<Rightarrow> char \<Rightarrow> bool" where
  "strchr s c = (c \<in> set s)"

text \<open>\<open>while (*buf && strchr(WHITESPACE, *buf)) *buf++ = 0;\<close>\<close>

function gobble :: "string \<Rightarrow> nat \<Rightarrow> string \<times> nat" where
  "gobble buf i =
     (if peek buf i \<noteq> CHR 0x00 \<and> strchr WHITESPACE (peek buf i)
      then gobble (buf[i := CHR 0x00]) (i + 1)
      else (buf, i))"
  by pat_completeness auto
termination
  by (relation "measure (\<lambda>(buf, i). length buf - i)") (auto simp: peek_def split: if_splits)

text \<open>\<open>while (*buf && !strchr(WHITESPACE, *buf)) buf++;\<close>\<close>

function scan :: "string \<Rightarrow> nat \<Rightarrow> nat" where
  "scan buf i =
     (if peek buf i \<noteq> CHR 0x00 \<and> \<not> strchr WHITESPACE (peek buf i)
      then scan buf (i + 1)
      else i)"
  by pat_completeness auto
termination
  by (relation "measure (\<lambda>(buf, i). length buf - i)") (auto simp: peek_def split: if_splits)

declare gobble.simps [simp del] scan.simps [simp del]

text \<open>
  The \<open>while (1)\<close> loop of runcmd. \<open>argv\<close> holds the pointers stored so far, so argc is its
  length. \<open>Too_many\<close> is the early return after the message.
\<close>

datatype parsed = Too_many | Parsed string "nat list"

function parse :: "string \<Rightarrow> nat \<Rightarrow> nat list \<Rightarrow> parsed" where
  "parse buf i argv =
     (case gobble buf i of (buf', j) \<Rightarrow>
        if peek buf' j = CHR 0x00 then Parsed buf' argv
        else if length argv = MAXARGS - 1 then Too_many
        else parse buf' (scan buf' j) (argv @ [j]))"
  by pat_completeness auto
termination
proof (relation "measure (\<lambda>(buf, i, argv). length buf - i)", goal_cases)
  case 1
  show ?case by simp
next
  case (2 buf i argv buf' j)
  then have g: "gobble buf i = (buf', j)" by simp
  have inv: "length buf' = length buf \<and> i \<le> j
      \<and> \<not> (peek buf' j \<noteq> CHR 0x00 \<and> strchr WHITESPACE (peek buf' j))"
    using g
  proof (induction buf i rule: gobble.induct)
    case (1 b k)
    then show ?case
      by (subst (asm) (2) gobble.simps) (fastforce split: if_splits)
  qed
  have ge: "k \<le> scan b k" for b k
  proof (induction b k rule: scan.induct)
    case (1 b k)
    then show ?case
      by (subst scan.simps) auto
  qed
  from 2 have nz: "peek buf' j \<noteq> CHR 0x00" by simp
  with inv have "scan buf' j = scan buf' (j + 1)"
    by (subst scan.simps) simp
  with ge [of "j + 1" buf'] have "j < scan buf' j" by simp
  moreover from nz have "j < length buf'" by (auto simp: peek_def split: if_splits)
  ultimately show ?case using inv by auto
qed

declare parse.simps [simp del]

text \<open>The C string that starts at index p: the bytes up to the next NUL.\<close>

definition cstr :: "string \<Rightarrow> nat \<Rightarrow> string" where
  "cstr buf p = takeWhile (\<lambda>c. c \<noteq> CHR 0x00) (drop p buf)"

subsection \<open>Command handlers\<close>

text \<open>Names and descriptions of the static table \<open>commands\<close>, in its order.\<close>

definition command_table :: "(string \<times> string) list" where
  "command_table =
     [(''help'', ''Display this list of commands''),
      (''kerninfo'', ''Display information about the kernel''),
      (''backtrace'', ''Display information about kernel stack''),
      (''showmappings'', ''Display information of all physical page mappings''),
      (''continue'', ''Continues execution of the environment''),
      (''c'', ''Continues execution of the environment''),
      (''si'', ''Performs a single instruction of the current environment'')]"

definition mon_help :: handler where
  "mon_help argv tf =
     Some (map (\<lambda>(n, d). Cprintf ''%s - %s'' [S n, S d]) command_table, Return 0)"

definition mon_kerninfo :: "kern \<Rightarrow> handler" where
  "mon_kerninfo k argv tf =
     Some ([Cprintf ''Special kernel symbols:'' [],
            Cprintf ''  _start                  %08x (phys)'' [W (sym_start k)],
            Cprintf ''  entry  %08x (virt)  %08x (phys)'' [W (sym_entry k), W (sym_entry k - KERNBASE)],
            Cprintf ''  etext  %08x (virt)  %08x (phys)'' [W (sym_etext k), W (sym_etext k - KERNBASE)],
            Cprintf ''  edata  %08x (virt)  %08x (phys)'' [W (sym_edata k), W (sym_edata k - KERNBASE)],
            Cprintf ''  end    %08x (virt)  %08x (phys)'' [W (sym_end k), W (sym_end k - KERNBASE)],
            Cprintf ''Kernel executable memory footprint: %dKB''
              [I (sint (ROUNDUP (sym_end k - sym_entry k) 1024) sdiv 1024)]],
           Return 0)"

text \<open>
  The \<open>while (current_ebp != 0)\<close> loop of mon_backtrace. Nothing bounds the chain of saved
  frame pointers, so the loop may not end.
\<close>

partial_function (option) backtrace_loop :: "kern \<Rightarrow> u32 \<Rightarrow> event list \<Rightarrow> event list option"
where
  "backtrace_loop k current_ebp out =
     (if current_ebp \<noteq> 0 then
        backtrace_loop k (mem k current_ebp)
          (out @
           [Cprintf ''  ebp %08x  eip %08x  args %08x %08x %08x %08x %08x''
              [W current_ebp, W (mem k (current_ebp + 4)), W (mem k (current_ebp + 8)),
               W (mem k (current_ebp + 12)), W (mem k (current_ebp + 16)),
               W (mem k (current_ebp + 20)), W (mem k (current_ebp + 24))],
            DebuginfoEip (mem k (current_ebp + 4)),
            Cprintf ''         %s:%d: %.*s+%d''
              [S (eip_file (debuginfo_eip k (mem k (current_ebp + 4)))),
               I (eip_line (debuginfo_eip k (mem k (current_ebp + 4)))),
               I (eip_fn_namelen (debuginfo_eip k (mem k (current_ebp + 4)))),
               S (eip_fn_name (debuginfo_eip k (mem k (current_ebp + 4)))),
               W (mem k (current_ebp + 4) - eip_fn_addr (debuginfo_eip k (mem k (current_ebp + 4))))]])
      else Some out)"

declare backtrace_loop.simps [code]

definition mon_backtrace :: "kern \<Rightarrow> handler" where
  "mon_backtrace k argv tf =
     (case backtrace_loop k (read_ebp k) [Cprintf ''Stack backtrace:'' []] of
        None \<Rightarrow> None
      | Some out \<Rightarrow> Some (out, Return 0))"

text \<open>
  The line that one iteration of the loop of mon_showmappings prints, from the entry that
  pgdir_walk returned: the \<open>if (pte == NULL)\<close> of the loop body.
\<close>

definition page_line :: "kern \<Rightarrow> u32 \<Rightarrow> event" where
  "page_line k page_addr =
     (case pgdir_walk k page_addr of
        None \<Rightarrow> Cprintf ''VA %08x is not mapped to physical address'' [W page_addr]
      | Some pte \<Rightarrow>
          Cprintf ''VA %08x is mapped to PA %08x permissions: PTE_P %x PTE_W %x PTE_U %x''
            [W page_addr, W (PTE_ADDR pte), W (pte AND PTE_P), W (pte AND PTE_W), W (pte AND PTE_U)])"

text \<open>
  \<open>for ( ; page_addr < end_addr ; page_addr += PGSIZE )\<close>: the comparison and the addition
  are those of uint32_t, so the addition wraps around.
\<close>

partial_function (option) showmappings_loop ::
  "kern \<Rightarrow> u32 \<Rightarrow> u32 \<Rightarrow> event list \<Rightarrow> event list option"
where
  "showmappings_loop k end_addr page_addr out =
     (if page_addr < end_addr
      then showmappings_loop k end_addr (page_addr + PGSIZE)
             (out @ [PgdirWalk page_addr, page_line k page_addr])
      else Some out)"

declare showmappings_loop.simps [code]

definition mon_showmappings :: "kern \<Rightarrow> handler" where
  "mon_showmappings k argv tf =
     (if int (length argv) \<noteq> 3
      then Some ([Cprintf ''Usage: showmappings <start_addr> <end_addr>'' []], Return (- 1))
      else
        let start_addr = strtol k (argv ! 1) 16;
            end_addr = strtol k (argv ! 2) 16
        in if end_addr < start_addr
           then Some ([Cprintf ''start_addr cannot exceed end_addr'' []], Return (- 1))
           else
             let start_page = ROUNDDOWN start_addr PGSIZE;
                 end_page = ROUNDDOWN end_addr PGSIZE;
                 page_addr = start_page
             in case showmappings_loop k end_addr page_addr [] of
                  None \<Rightarrow> None
                | Some out \<Rightarrow> Some (out, Return 0))"

text \<open>
  env_run (kern/env.c) is not under src/ and does not return: \<open>EnvRun t\<close> is the call
  \<open>env_run(curenv)\<close> with the saved context as the handler leaves it. \<open>panic\<close> does not
  return either. \<open>tf->tf_trapno\<close> with tf = NULL is the outcome \<open>NullDeref\<close>.
\<close>

definition mon_continue :: handler where
  "mon_continue argv tf =
     (if int (length argv) \<noteq> 1 then Some ([Cprintf ''Usage: continue'' []], Return (- 1))
      else case tf of
        None \<Rightarrow> Some ([], NullDeref)
      | Some t \<Rightarrow>
          if tf_trapno t \<noteq> T_BRKPT \<and> tf_trapno t \<noteq> T_DEBUG
          then Some ([], Panic ''mon_continue: unexpected trap!'')
          else
            let t' = (if tf_trapno t = T_DEBUG
                      then t\<lparr>tf_eflags := tf_eflags t AND NOT (push_bit 8 1)\<rparr>
                      else t)
            in Some ([], EnvRun t'))"

definition mon_si :: handler where
  "mon_si argv tf =
     (if int (length argv) \<noteq> 1 then Some ([Cprintf ''Usage: si'' []], Return (- 1))
      else case tf of
        None \<Rightarrow> Some ([], NullDeref)
      | Some t \<Rightarrow>
          if tf_trapno t \<noteq> T_BRKPT \<and> tf_trapno t \<noteq> T_DEBUG
          then Some ([], Panic ''mon_si: unexpected trap!'')
          else Some ([], EnvRun (t\<lparr>tf_eflags := tf_eflags t OR push_bit 8 1\<rparr>)))"

text \<open>The static table \<open>commands\<close>.\<close>

definition commands :: "kern \<Rightarrow> command list" where
  "commands k =
     [\<lparr>name = ''help'', desc = ''Display this list of commands'', func = mon_help\<rparr>,
      \<lparr>name = ''kerninfo'', desc = ''Display information about the kernel'', func = mon_kerninfo k\<rparr>,
      \<lparr>name = ''backtrace'', desc = ''Display information about kernel stack'',
        func = mon_backtrace k\<rparr>,
      \<lparr>name = ''showmappings'', desc = ''Display information of all physical page mappings'',
        func = mon_showmappings k\<rparr>,
      \<lparr>name = ''continue'', desc = ''Continues execution of the environment'', func = mon_continue\<rparr>,
      \<lparr>name = ''c'', desc = ''Continues execution of the environment'', func = mon_continue\<rparr>,
      \<lparr>name = ''si'', desc = ''Performs a single instruction of the current environment'',
        func = mon_si\<rparr>]"

subsection \<open>Dispatch\<close>

text \<open>
  The \<open>for\<close> loop over the command table: the first entry whose name equals argv[0] is
  called and its result returned; \<open>strcmp(a, b) == 0\<close> is equality of the two strings.
\<close>

fun lookup :: "command list \<Rightarrow> string list \<Rightarrow> trapframe option \<Rightarrow> result" where
  "lookup [] argv tf =
     Some ([Cprintf (''Unknown command '' @ CHR 0x27 # ''%s'' @ [CHR 0x27]) [S (argv ! 0)]],
           Return 0)"
| "lookup (c # cs) argv tf =
     (if argv ! 0 = name c then func c argv tf else lookup cs argv tf)"

definition runcmd :: "command list \<Rightarrow> string \<Rightarrow> trapframe option \<Rightarrow> result" where
  "runcmd cmds buf tf =
     (case parse buf 0 [] of
        Too_many \<Rightarrow> Some ([Cprintf ''Too many arguments (max %d)'' [I (int MAXARGS)]], Return 0)
      | Parsed buf' ptrs \<Rightarrow>
          let argv = map (cstr buf') ptrs in
          if length argv = 0 then Some ([], Return 0)
          else lookup cmds argv tf)"

subsection \<open>The monitor loop\<close>

text \<open>
  The input is the list of values that successive calls of readline return (\<open>None\<close> for a
  null pointer). \<open>Returned\<close>: the loop broke and monitor returns. \<open>Blocked\<close>: the input is
  used up and readline waits. \<open>Left oc\<close>: a handler did not come back.
\<close>

datatype monitor_end = Returned | Blocked | Left outcome

definition emit :: "event list \<Rightarrow> (event list \<times> 'a) option \<Rightarrow> (event list \<times> 'a) option" where
  "emit out r = (case r of None \<Rightarrow> None | Some (out', e) \<Rightarrow> Some (out @ out', e))"

fun monitor_loop ::
  "command list \<Rightarrow> trapframe option \<Rightarrow> string option list \<Rightarrow> (event list \<times> monitor_end) option"
where
  "monitor_loop cmds tf [] = Some ([Readline ''K> ''], Blocked)"
| "monitor_loop cmds tf (None # rest) = emit [Readline ''K> ''] (monitor_loop cmds tf rest)"
| "monitor_loop cmds tf (Some buf # rest) =
     (case runcmd cmds buf tf of
        None \<Rightarrow> None
      | Some (out, Return r) \<Rightarrow>
          if r < 0 then Some (Readline ''K> '' # out, Returned)
          else emit (Readline ''K> '' # out) (monitor_loop cmds tf rest)
      | Some (out, oc) \<Rightarrow> Some (Readline ''K> '' # out, Left oc))"

definition monitor ::
  "command list \<Rightarrow> trapframe option \<Rightarrow> string option list \<Rightarrow> (event list \<times> monitor_end) option"
where
  "monitor cmds tf input =
     emit ([Cprintf ''Welcome to the JOS kernel monitor!'' [],
            Cprintf ''Type 'help' for a list of commands.'' []]
           @ (case tf of None \<Rightarrow> [] | Some t \<Rightarrow> [PrintTrapframe t]))
          (monitor_loop cmds tf input)"

subsection \<open>Pages of a range\<close>

text \<open>
  What n iterations of the loop of mon_showmappings emit when they start at \<open>page\<close>: for
  each page in turn the page-table query and the line printed for it.
\<close>

definition page_events :: "kern \<Rightarrow> u32 \<Rightarrow> nat \<Rightarrow> event list" where
  "page_events k page n =
     concat (map (\<lambda>i. [PgdirWalk (page + of_nat i * PGSIZE), page_line k (page + of_nat i * PGSIZE)])
               [0..<n])"

subsection \<open>Lines of tokens\<close>

text \<open>
  What the properties of the tokenizer are stated on. A token is a non-empty run of bytes
  that are neither NUL nor whitespace, a gap is a run of whitespace. \<open>line_of r\<close> is the
  line made of the tokens of r, each followed by its gap; in a \<open>separated\<close> line only the
  last gap may be empty, so that the tokens do not run into each other.
\<close>

definition is_token :: "string \<Rightarrow> bool" where
  "is_token t = (t \<noteq> [] \<and> (\<forall>c \<in> set t. c \<noteq> CHR 0x00 \<and> c \<notin> set WHITESPACE))"

definition is_gap :: "string \<Rightarrow> bool" where
  "is_gap g = (\<forall>c \<in> set g. c \<in> set WHITESPACE)"

fun line_of :: "(string \<times> string) list \<Rightarrow> string" where
  "line_of [] = []"
| "line_of ((t, g) # r) = t @ g @ line_of r"

fun separated :: "(string \<times> string) list \<Rightarrow> bool" where
  "separated [] = True"
| "separated ((t, g) # r) = (is_token t \<and> is_gap g \<and> (g = [] \<longrightarrow> r = []) \<and> separated r)"

text \<open>The buffer after tokenizing: every gap overwritten with NUL bytes.\<close>

fun zeroed :: "(string \<times> string) list \<Rightarrow> string" where
  "zeroed [] = []"
| "zeroed ((t, g) # r) = t @ replicate (length g) (CHR 0x00) @ zeroed r"

text \<open>The index at which each token starts, the first one at p.\<close>

fun starts :: "nat \<Rightarrow> (string \<times> string) list \<Rightarrow> nat list" where
  "starts p [] = []"
| "starts p ((t, g) # r) = p # starts (p + length t + length g) r"

subsection \<open>A kernel to run the handlers on\<close>

text \<open>
  Modelled from the spec: strtol (lib/string.c) is not under src/. The spec calls the two
  arguments of showmappings hex addresses: \<open>hex_strtol\<close> reads hexadecimal digits, the most
  significant first, up to the first byte that is not one, in 32-bit arithmetic.
\<close>

definition hexdigit :: "char \<Rightarrow> nat option" where
  "hexdigit c =
     (let n = (of_char c :: nat) in
      if 48 \<le> n \<and> n \<le> 57 then Some (n - 48)
      else if 97 \<le> n \<and> n \<le> 102 then Some (n - 87)
      else if 65 \<le> n \<and> n \<le> 70 then Some (n - 55)
      else None)"

fun hex_digits :: "u32 \<Rightarrow> string \<Rightarrow> u32" where
  "hex_digits v [] = v"
| "hex_digits v (c # cs) =
     (case hexdigit c of None \<Rightarrow> v | Some d \<Rightarrow> hex_digits (v * 16 + of_nat d) cs)"

definition hex_strtol :: "string \<Rightarrow> nat \<Rightarrow> u32" where
  "hex_strtol s base = hex_digits 0 s"

text \<open>
  A kernel whose page table maps the first 4 MB onto themselves, present and writable, and
  nothing else; its stack has no frame.
\<close>

definition kern0 :: kern where
  "kern0 =
     \<lparr>strtol = hex_strtol,
      pgdir_walk = (\<lambda>va. if va < 0x400000 then Some (PTE_ADDR va OR PTE_P OR PTE_W) else None),
      read_ebp = 0,
      mem = (\<lambda>a. 0),
      debuginfo_eip = (\<lambda>a. \<lparr>eip_file = ''<unknown>'', eip_line = 0, eip_fn_name = ''<unknown>'',
                              eip_fn_namelen = 9, eip_fn_addr = a\<rparr>),
      sym_start = 0x0010000C, sym_entry = 0xF010000C, sym_etext = 0xF0101000,
      sym_edata = 0xF0112000, sym_end = 0xF0113000\<rparr>"

text \<open>
  A command table with one handler that reports an error with a negative value other
  than -1, to run the loop of \<open>monitor\<close> on such a result.
\<close>

definition minus_two_table :: "command list" where
  "minus_two_table =
     [\<lparr>name = ''x'', desc = ''returns -2'', func = (\<lambda>argv tf. Some ([], Return (- 2)))\<rparr>]"

section \<open>The tokenizer\<close>

lemma ws_not_nul: "c \<in> set WHITESPACE \<Longrightarrow> c \<noteq> CHR 0x00"
  by (auto simp: WHITESPACE_def)

lemma peek_append:
  "peek (pre @ rest) (length pre) = (case rest of [] \<Rightarrow> CHR 0x00 | c # _ \<Rightarrow> c)"
  by (simp add: peek_def split: list.splits)

text \<open>
  The first inner loop overwrites a whole gap with NUL bytes and stops on the byte after
  it, when that byte is not whitespace.
\<close>

lemma gobble_gap:
  assumes "is_gap g" "rest = [] \<or> hd rest = CHR 0x00 \<or> hd rest \<notin> set WHITESPACE"
  shows "gobble (pre @ g @ rest) (length pre)
       = (pre @ replicate (length g) (CHR 0x00) @ rest, length pre + length g)"
  using assms
proof (induction g arbitrary: pre)
  case Nil
  then show ?case
    by (subst gobble.simps) (auto simp: peek_append strchr_def split: list.splits)
next
  case (Cons c g)
  then have c: "c \<in> set WHITESPACE" "c \<noteq> CHR 0x00" and g: "is_gap g"
    by (auto simp: is_gap_def ws_not_nul)
  have "gobble (pre @ (c # g) @ rest) (length pre)
      = gobble ((pre @ [CHR 0x00]) @ g @ rest) (length (pre @ [CHR 0x00]))"
    using c by (subst gobble.simps) (simp add: peek_append strchr_def)
  also have "\<dots> = ((pre @ [CHR 0x00]) @ replicate (length g) (CHR 0x00) @ rest,
                     length (pre @ [CHR 0x00]) + length g)"
    using g Cons.prems(2) by (rule Cons.IH)
  finally show ?case by (simp add: replicate_app_Cons_same)
qed

text \<open>The second inner loop runs to the end of the token and changes nothing.\<close>

lemma scan_token:
  assumes "\<forall>c \<in> set t. c \<noteq> CHR 0x00 \<and> c \<notin> set WHITESPACE"
    "rest = [] \<or> hd rest = CHR 0x00 \<or> hd rest \<in> set WHITESPACE"
  shows "scan (pre @ t @ rest) (length pre) = length pre + length t"
  using assms
proof (induction t arbitrary: pre)
  case Nil
  then show ?case
    by (subst scan.simps) (auto simp: peek_append strchr_def split: list.splits)
next
  case (Cons c t)
  have "scan (pre @ (c # t) @ rest) (length pre)
      = scan ((pre @ [c]) @ t @ rest) (length (pre @ [c]))"
    using Cons.prems(1) by (subst scan.simps) (simp add: peek_append strchr_def)
  also have "\<dots> = length (pre @ [c]) + length t"
    using Cons.prems by (intro Cons.IH) auto
  finally show ?case by simp
qed

text \<open>
  One round of the outer loop on a line that starts with the gap \<open>g0\<close> and goes on with the
  token \<open>t\<close>: where gobble stops, what is read there, and where scan stops.
\<close>

lemma outer_round:
  assumes "is_gap g0" "is_token t" "is_gap g" "g = [] \<longrightarrow> r = []"
  shows "gobble (pre @ g0 @ line_of ((t, g) # r)) (length pre)
           = (pre @ replicate (length g0) (CHR 0x00) @ line_of ((t, g) # r), length pre + length g0)"
    and "peek (pre @ replicate (length g0) (CHR 0x00) @ line_of ((t, g) # r)) (length pre + length g0)
           \<noteq> CHR 0x00"
    and "scan (pre @ replicate (length g0) (CHR 0x00) @ line_of ((t, g) # r)) (length pre + length g0)
           = length pre + length g0 + length t"
proof -
  let ?z0 = "replicate (length g0) (CHR 0x00)"
  from assms(2) obtain c t' where tc: "t = c # t'" "c \<noteq> CHR 0x00" "c \<notin> set WHITESPACE"
    by (auto simp: is_token_def neq_Nil_conv)
  show "gobble (pre @ g0 @ line_of ((t, g) # r)) (length pre)
      = (pre @ ?z0 @ line_of ((t, g) # r), length pre + length g0)"
    using assms(1) by (intro gobble_gap) (simp_all add: tc)
  show "peek (pre @ ?z0 @ line_of ((t, g) # r)) (length pre + length g0) \<noteq> CHR 0x00"
    using peek_append [of "pre @ ?z0" "line_of ((t, g) # r)"] by (simp add: tc)
  have "g @ line_of r = [] \<or> hd (g @ line_of r) = CHR 0x00 \<or> hd (g @ line_of r) \<in> set WHITESPACE"
    using assms(3,4) by (cases g) (auto simp: is_gap_def)
  with assms(2) have "scan ((pre @ ?z0) @ t @ (g @ line_of r)) (length (pre @ ?z0))
      = length (pre @ ?z0) + length t"
    by (intro scan_token) (simp_all add: is_token_def)
  then show "scan (pre @ ?z0 @ line_of ((t, g) # r)) (length pre + length g0)
      = length pre + length g0 + length t"
    by simp
qed

text \<open>
  Up to fifteen tokens: the loop ends with every gap overwritten and one pointer per
  token, in order.
\<close>

lemma parse_separated:
  assumes "is_gap g0" "separated r" "length argv + length r \<le> 15"
  shows "parse (pre @ g0 @ line_of r) (length pre) argv
       = Parsed (pre @ replicate (length g0) (CHR 0x00) @ zeroed r)
                (argv @ starts (length pre + length g0) r)"
  using assms
proof (induction r arbitrary: pre g0 argv)
  case Nil
  have "gobble (pre @ g0 @ []) (length pre)
      = (pre @ replicate (length g0) (CHR 0x00) @ [], length pre + length g0)"
    using Nil.prems(1) by (intro gobble_gap) simp_all
  then show ?case
    by (subst parse.simps) (simp add: peek_def)
next
  case (Cons a r)
  obtain t g where a: "a = (t, g)" by (cases a)
  let ?z0 = "replicate (length g0) (CHR 0x00)"
  from Cons.prems a have t: "is_token t" and g: "is_gap g" and last: "g = [] \<longrightarrow> r = []"
    and r: "separated r" by simp_all
  note round = outer_round [OF Cons.prems(1) t g last, of pre]
  have ih: "parse ((pre @ ?z0 @ t) @ g @ line_of r) (length (pre @ ?z0 @ t))
               (argv @ [length pre + length g0])
      = Parsed ((pre @ ?z0 @ t) @ replicate (length g) (CHR 0x00) @ zeroed r)
               ((argv @ [length pre + length g0]) @ starts (length (pre @ ?z0 @ t) + length g) r)"
    using g r Cons.prems(3) by (intro Cons.IH) simp_all
  have "parse (pre @ g0 @ line_of (a # r)) (length pre) argv
      = parse (pre @ ?z0 @ line_of (a # r)) (length pre + length g0 + length t)
          (argv @ [length pre + length g0])"
    using Cons.prems(3) round
    by (subst parse.simps) (simp add: a MAXARGS_def)
  also have "\<dots> = Parsed ((pre @ ?z0 @ t) @ replicate (length g) (CHR 0x00) @ zeroed r)
               ((argv @ [length pre + length g0]) @ starts (length (pre @ ?z0 @ t) + length g) r)"
    using ih by (simp add: a add.assoc)
  finally show ?case by (simp add: a add.assoc)
qed

text \<open>Sixteen tokens or more: the loop returns early, at the sixteenth token.\<close>

lemma parse_too_many:
  assumes "is_gap g0" "separated r" "15 < length argv + length r" "length argv \<le> 15"
  shows "parse (pre @ g0 @ line_of r) (length pre) argv = Too_many"
  using assms
proof (induction r arbitrary: pre g0 argv)
  case Nil
  then show ?case by simp
next
  case (Cons a r)
  obtain t g where a: "a = (t, g)" by (cases a)
  let ?z0 = "replicate (length g0) (CHR 0x00)"
  from Cons.prems a have t: "is_token t" and g: "is_gap g" and last: "g = [] \<longrightarrow> r = []"
    and r: "separated r" by simp_all
  note round = outer_round [OF Cons.prems(1) t g last, of pre]
  show ?case
  proof (cases "length argv = 15")
    case True
    then show ?thesis
      using round by (subst parse.simps) (simp add: a MAXARGS_def)
  next
    case False
    have ih: "parse ((pre @ ?z0 @ t) @ g @ line_of r) (length (pre @ ?z0 @ t))
                 (argv @ [length pre + length g0]) = Too_many"
      using g r Cons.prems(3,4) False by (intro Cons.IH) simp_all
    have "parse (pre @ g0 @ line_of (a # r)) (length pre) argv
        = parse (pre @ ?z0 @ line_of (a # r)) (length pre + length g0 + length t)
            (argv @ [length pre + length g0])"
      using False round
      by (subst parse.simps) (simp add: a MAXARGS_def)
    also have "\<dots> = Too_many"
      using ih by (simp add: a add.assoc)
    finally show ?thesis .
  qed
qed

text \<open>Reading the stored pointers back as C strings gives the tokens.\<close>

lemma cstr_token:
  assumes "\<forall>c \<in> set t. c \<noteq> CHR 0x00" "rest = [] \<or> hd rest = CHR 0x00"
  shows "cstr (pre @ t @ rest) (length pre) = t"
  using assms by (cases rest) (auto simp: cstr_def takeWhile_eq_all_conv)

lemma cstr_starts:
  assumes "separated r"
  shows "map (cstr (pre @ zeroed r)) (starts (length pre) r) = map fst r"
  using assms
proof (induction r arbitrary: pre)
  case Nil
  then show ?case by simp
next
  case (Cons a r)
  obtain t g where a: "a = (t, g)" by (cases a)
  let ?z = "replicate (length g) (CHR 0x00)"
  from Cons.prems a have t: "is_token t" and last: "g = [] \<longrightarrow> r = []"
    and r: "separated r" by simp_all
  have "?z @ zeroed r = [] \<or> hd (?z @ zeroed r) = CHR 0x00"
    using last by (cases g) auto
  with t have "cstr (pre @ t @ (?z @ zeroed r)) (length pre) = t"
    by (intro cstr_token) (simp_all add: is_token_def)
  moreover have "map (cstr ((pre @ t @ ?z) @ zeroed r)) (starts (length (pre @ t @ ?z)) r) = map fst r"
    using r by (rule Cons.IH)
  ultimately show ?case by (simp add: a add.assoc)
qed

lemma length_starts: "length (starts p r) = length r"
  by (induction r arbitrary: p) auto

lemma tokens_nonempty: "separated r \<Longrightarrow> [] \<notin> set (map fst r)"
  by (induction r) (auto simp: is_token_def)

lemma runcmd_separated:
  assumes "is_gap g0" "separated r" "1 \<le> length r" "length r \<le> 15"
  shows "runcmd cmds (g0 @ line_of r) tf = lookup cmds (map fst r) tf"
proof -
  let ?z = "replicate (length g0) (CHR 0x00)"
  have p: "parse (g0 @ line_of r) 0 [] = Parsed (?z @ zeroed r) (starts (length g0) r)"
    using parse_separated [of g0 r "[]" "[]"] assms by simp
  have c: "map (cstr (?z @ zeroed r)) (starts (length g0) r) = map fst r"
    using cstr_starts [OF assms(2), of ?z] by simp
  show ?thesis
    using assms(3) length_starts [of "length g0" r] by (auto simp: runcmd_def p c)
qed

lemma runcmd_one_token: "is_token t \<Longrightarrow> runcmd cmds t tf = lookup cmds [t] tf"
  using runcmd_separated [of "[]" "[(t, [])]" cmds tf] by (simp add: is_gap_def)

text \<open>Every buffer without a NUL byte is a gap followed by a separated line.\<close>

lemma line_decomposition:
  assumes "\<forall>c \<in> set buf. c \<noteq> CHR 0x00"
  shows "\<exists>g0 r. is_gap g0 \<and> separated r \<and> buf = g0 @ line_of r"
  using assms
proof (induction buf)
  case Nil
  have "is_gap [] \<and> separated [] \<and> [] = [] @ line_of []"
    by (simp add: is_gap_def)
  then show ?case by blast
next
  case (Cons c buf)
  then obtain g0 r where ih: "is_gap g0" "separated r" "buf = g0 @ line_of r"
    by auto
  from Cons.prems have c: "c \<noteq> CHR 0x00" by simp
  show ?case
  proof (cases "c \<in> set WHITESPACE")
    case True
    with ih have "is_gap (c # g0) \<and> separated r \<and> c # buf = (c # g0) @ line_of r"
      by (simp add: is_gap_def)
    then show ?thesis by blast
  next
    case False
    show ?thesis
    proof (cases "g0 = []")
      case False
      with ih c \<open>c \<notin> set WHITESPACE\<close>
      have "is_gap [] \<and> separated (([c], g0) # r) \<and> c # buf = [] @ line_of (([c], g0) # r)"
        by (simp add: is_gap_def is_token_def)
      then show ?thesis by blast
    next
      case True
      show ?thesis
      proof (cases r)
        case Nil
        with ih True c \<open>c \<notin> set WHITESPACE\<close>
        have "is_gap [] \<and> separated [([c], [])] \<and> c # buf = [] @ line_of [([c], [])]"
          by (simp add: is_gap_def is_token_def)
        then show ?thesis by blast
      next
        case (Cons a r')
        obtain t g where a: "a = (t, g)" by (cases a)
        with ih True c \<open>c \<notin> set WHITESPACE\<close> Cons
        have "is_gap [] \<and> separated ((c # t, g) # r') \<and> c # buf = [] @ line_of ((c # t, g) # r')"
          by (simp add: is_gap_def is_token_def)
        then show ?thesis by blast
      qed
    qed
  qed
qed

text \<open>
  C2. Claimed: a line of N whitespace-separated tokens, 1 \<le> N \<le> 16, is split into exactly
  its N tokens, non-empty and in order, and no error message is printed. The code stores
  at most MAXARGS - 1 = 15 pointers, the last array slot being kept for the null
  terminator, so the claim holds up to N = 15: the buffer ends with every gap overwritten
  by NUL bytes, the stored pointers read back as the N tokens in order, none of them
  empty, and runcmd goes on to the table lookup with exactly these tokens, printing
  nothing of its own.
\<close>

theorem tokenize_upto_15:
  assumes "is_gap g0" and "separated r" and "1 \<le> length r" and "length r \<le> 15"
  shows "parse (g0 @ line_of r) 0 []
           = Parsed (replicate (length g0) (CHR 0x00) @ zeroed r) (starts (length g0) r)
       \<and> map (cstr (replicate (length g0) (CHR 0x00) @ zeroed r)) (starts (length g0) r) = map fst r
       \<and> length (starts (length g0) r) = length r
       \<and> [] \<notin> set (map fst r)
       \<and> runcmd cmds (g0 @ line_of r) tf = lookup cmds (map fst r) tf"
proof -
  let ?z = "replicate (length g0) (CHR 0x00)"
  have "parse (g0 @ line_of r) 0 [] = Parsed (?z @ zeroed r) (starts (length g0) r)"
    using parse_separated [of g0 r "[]" "[]"] assms by simp
  moreover have "map (cstr (?z @ zeroed r)) (starts (length g0) r) = map fst r"
    using cstr_starts [OF assms(2), of ?z] by simp
  moreover note length_starts [of "length g0" r] tokens_nonempty [OF assms(2)]
    runcmd_separated [OF assms, of cmds tf]
  ultimately show ?thesis by simp
qed

theorem tokenize_upto_15_witness:
  "is_gap '' ''
   \<and> separated [(''showmappings'', ''  ''), (''1000'', [CHR 0x09]), (''3001'', [])]
   \<and> 1 \<le> length [(''showmappings'', ''  ''), (''1000'', [CHR 0x09]), (''3001'', [])]
   \<and> length [(''showmappings'', ''  ''), (''1000'', [CHR 0x09]), (''3001'', [])] \<le> 15
   \<and> map (cstr (replicate (length '' '') (CHR 0x00)
                 @ zeroed [(''showmappings'', ''  ''), (''1000'', [CHR 0x09]), (''3001'', [])]))
          (starts (length '' '') [(''showmappings'', ''  ''), (''1000'', [CHR 0x09]), (''3001'', [])])
       = [''showmappings'', ''1000'', ''3001'']
   \<and> runcmd (commands kern0)
         ('' '' @ line_of [(''showmappings'', ''  ''), (''1000'', [CHR 0x09]), (''3001'', [])]) None
       = lookup (commands kern0) [''showmappings'', ''1000'', ''3001''] None"
proof -
  have g: "is_gap '' ''"
    by (simp add: is_gap_def WHITESPACE_def)
  have s: "separated [(''showmappings'', ''  ''), (''1000'', [CHR 0x09]), (''3001'', [])]"
    by (simp add: is_gap_def is_token_def WHITESPACE_def)
  have l: "1 \<le> length [(''showmappings'', ''  ''), (''1000'', [CHR 0x09]), (''3001'', [])]"
    "length [(''showmappings'', ''  ''), (''1000'', [CHR 0x09]), (''3001'', [])] \<le> 15"
    by simp_all
  from tokenize_upto_15 [OF g s l, of "commands kern0" None]
  show ?thesis using g s by simp
qed

theorem sixteen_tokens_counterexample:
  "is_gap [] \<and> separated (replicate 15 (''a'', '' '') @ [(''a'', [])])
   \<and> length (replicate 15 (''a'', '' '') @ [(''a'', [])]) = 16
   \<and> line_of (replicate 15 (''a'', '' '') @ [(''a'', [])]) = ''a a a a a a a a a a a a a a a a''
   \<and> parse ''a a a a a a a a a a a a a a a a'' 0 [] = Too_many
   \<and> runcmd (commands kern0) ''a a a a a a a a a a a a a a a a'' None
       = Some ([Cprintf ''Too many arguments (max %d)'' [I 16]], Return 0)"
  by code_simp

text \<open>
  C3. A line of more than 15 whitespace-separated tokens: runcmd prints the
  too-many-arguments message and returns 0. The result is the same for every command
  table, so no handler has run, and the loop of monitor goes on to the next line.
\<close>

theorem too_many_arguments:
  assumes "is_gap g0" and "separated r" and "15 < length r"
  shows "runcmd cmds (g0 @ line_of r) tf
           = Some ([Cprintf ''Too many arguments (max %d)'' [I 16]], Return 0)
       \<and> monitor_loop cmds tf (Some (g0 @ line_of r) # rest)
           = emit [Readline ''K> '', Cprintf ''Too many arguments (max %d)'' [I 16]]
               (monitor_loop cmds tf rest)"
proof -
  have "parse (g0 @ line_of r) 0 [] = Too_many"
    using parse_too_many [of g0 r "[]" "[]"] assms by simp
  then have "runcmd cmds (g0 @ line_of r) tf
           = Some ([Cprintf ''Too many arguments (max %d)'' [I 16]], Return 0)"
    by (simp add: runcmd_def MAXARGS_def)
  then show ?thesis by simp
qed

theorem too_many_arguments_witness:
  "is_gap [] \<and> separated (replicate 16 (''si'', '' '')) \<and> 15 < length (replicate 16 (''si'', '' ''))
   \<and> runcmd (commands kern0) ([] @ line_of (replicate 16 (''si'', '' '')))
         (Some \<lparr>tf_trapno = 3, tf_eflags = 2\<rparr>)
       = Some ([Cprintf ''Too many arguments (max %d)'' [I 16]], Return 0)"
proof -
  have g: "is_gap []"
    by (simp add: is_gap_def)
  have s: "separated (replicate 16 (''si'', '' ''))"
    by code_simp
  have l: "15 < length (replicate 16 (''si'', '' ''))"
    by simp
  from too_many_arguments [OF g s l, of "commands kern0" "Some \<lparr>tf_trapno = 3, tf_eflags = 2\<rparr>" "[]"]
  show ?thesis using g s l by simp
qed

section \<open>The monitor loop\<close>

lemma lookup_find:
  "find (\<lambda>c. argv ! 0 = name c) cmds = Some c \<Longrightarrow> lookup cmds argv tf = func c argv tf"
  by (induction cmds) (auto split: if_splits)

lemma monitor_loop_emits: "monitor_loop cmds tf input = Some (ev, e) \<Longrightarrow> ev \<noteq> []"
  by (cases "(cmds, tf, input)" rule: monitor_loop.cases)
     (auto simp: emit_def split: option.splits outcome.splits if_splits prod.splits)

text \<open>mon_help prints the names and descriptions of the table.\<close>

lemma commands_table: "map (\<lambda>c. (name c, desc c)) (commands k) = command_table"
  by (simp add: commands_def command_table_def)

text \<open>The handlers of the table return 0 or -1, when they return.\<close>

lemma commands_return_0_or_minus_1:
  assumes "c \<in> set (commands k)" and "func c argv tf = Some (out, Return r)"
  shows "r = 0 \<or> r = - 1"
  using assms
  by (auto simp: commands_def mon_help_def mon_kerninfo_def mon_backtrace_def
        mon_showmappings_def mon_continue_def mon_si_def Let_def
      split: if_splits option.splits)

text \<open>
  C1. Claimed: the loop of monitor exits if and only if the handler's result is exactly
  -1, and any other result, other negative values included, makes it read the next line.
  The loop tests \<open>runcmd(buf, tf) < 0\<close>: it exits if and only if the result of the handler
  that runcmd called is negative, and reads the next line on 0 and on every positive
  result. In the first conjunct the loop either stops with the handler's output, or
  prepends it to what the rest of the input produces; the second says that it stops at
  this line exactly when r < 0.
\<close>

theorem monitor_exits_iff_negative:
  assumes "parse buf 0 [] = Parsed buf' ptrs"
    and "argv = map (cstr buf') ptrs"
    and "argv \<noteq> []"
    and "find (\<lambda>c. argv ! 0 = name c) cmds = Some c"
    and "func c argv tf = Some (out, Return r)"
  shows "monitor_loop cmds tf (Some buf # rest)
           = (if r < 0 then Some (Readline ''K> '' # out, Returned)
              else emit (Readline ''K> '' # out) (monitor_loop cmds tf rest))
       \<and> (monitor_loop cmds tf (Some buf # rest) = Some (Readline ''K> '' # out, Returned)
            \<longleftrightarrow> r < 0)"
proof -
  have "runcmd cmds buf tf = Some (out, Return r)"
    using assms by (simp add: runcmd_def lookup_find)
  then have eq: "monitor_loop cmds tf (Some buf # rest)
           = (if r < 0 then Some (Readline ''K> '' # out, Returned)
              else emit (Readline ''K> '' # out) (monitor_loop cmds tf rest))"
    by simp
  have "emit (Readline ''K> '' # out) (monitor_loop cmds tf rest)
          \<noteq> Some (Readline ''K> '' # out, Returned)"
    by (auto simp: emit_def dest: monitor_loop_emits split: option.splits)
  with eq show ?thesis by simp
qed

theorem monitor_exits_iff_negative_witness:
  "parse ''showmappings'' 0 [] = Parsed ''showmappings'' [0]
   \<and> [''showmappings''] = map (cstr ''showmappings'') [0]
   \<and> [''showmappings''] \<noteq> []
   \<and> find (\<lambda>c. [''showmappings''] ! 0 = name c) (commands kern0) = Some (commands kern0 ! 3)
   \<and> func (commands kern0 ! 3) [''showmappings''] None
       = Some ([Cprintf ''Usage: showmappings <start_addr> <end_addr>'' []], Return (- 1))
   \<and> monitor_loop (commands kern0) None [Some ''showmappings'', Some ''help'']
       = Some ([Readline ''K> '', Cprintf ''Usage: showmappings <start_addr> <end_addr>'' []],
               Returned)"
proof -
  have p: "parse ''showmappings'' 0 [] = Parsed ''showmappings'' [0]" by code_simp
  have a: "[''showmappings''] = map (cstr ''showmappings'') [0]" by (simp add: cstr_def)
  have n: "[''showmappings''] \<noteq> []" by simp
  have f: "find (\<lambda>c. [''showmappings''] ! 0 = name c) (commands kern0) = Some (commands kern0 ! 3)"
    by (simp add: commands_def)
  have r: "func (commands kern0 ! 3) [''showmappings''] None
       = Some ([Cprintf ''Usage: showmappings <start_addr> <end_addr>'' []], Return (- 1))"
    by (simp add: commands_def mon_showmappings_def)
  from monitor_exits_iff_negative [OF p a n f r, of "[Some ''help'']"]
  show ?thesis using p a f r by simp
qed

theorem exit_only_on_minus_one_counterexample:
  "func (hd minus_two_table) [''x''] None = Some ([], Return (- 2))
   \<and> (- 2 :: int) \<noteq> - 1
   \<and> runcmd minus_two_table ''x'' None = Some ([], Return (- 2))
   \<and> monitor_loop minus_two_table None [Some ''x'', Some ''x'']
       = Some ([Readline ''K> ''], Returned)"
  by code_simp

section \<open>showmappings\<close>

lemma page_events_Suc:
  "page_events k page (Suc n)
     = [PgdirWalk page, page_line k page] @ page_events k (page + PGSIZE) n"
proof -
  have "[0..<Suc n] = 0 # map Suc [0..<n]"
    by (simp add: upt_conv_Cons map_Suc_upt del: upt_Suc)
  then show ?thesis
    by (simp add: page_events_def comp_def algebra_simps del: upt_Suc)
qed

text \<open>
  The loop runs n times when the first n page addresses are below the bound and the next
  one is not.
\<close>

lemma showmappings_loop_iterates:
  assumes "\<forall>i<n. page + of_nat i * PGSIZE < e" and "\<not> page + of_nat n * PGSIZE < e"
  shows "showmappings_loop k e page out = Some (out @ page_events k page n)"
  using assms
proof (induction n arbitrary: page out)
  case 0
  then show ?case
    by (subst showmappings_loop.simps) (simp add: page_events_def)
next
  case (Suc n)
  from Suc.prems(1) have lt: "page < e" by (auto dest: spec [of _ 0])
  have "\<forall>i<n. (page + PGSIZE) + of_nat i * PGSIZE < e"
    using Suc.prems(1) by (auto simp: algebra_simps dest: spec [of _ "Suc _"])
  moreover have "\<not> (page + PGSIZE) + of_nat n * PGSIZE < e"
    using Suc.prems(2) by (simp add: algebra_simps)
  ultimately have "showmappings_loop k e (page + PGSIZE) (out @ [PgdirWalk page, page_line k page])
      = Some ((out @ [PgdirWalk page, page_line k page]) @ page_events k (page + PGSIZE) n)"
    by (rule Suc.IH)
  with lt show ?case
    by (subst showmappings_loop.simps) (simp add: page_events_Suc)
qed


lemma unat_aligned: "(p::u32) mod PGSIZE = 0 \<longleftrightarrow> unat p mod 4096 = 0"
proof -
  have "p mod PGSIZE = 0 \<longleftrightarrow> unat (p mod PGSIZE) = 0"
    by (simp add: unat_eq_0)
  then show ?thesis by (simp add: unat_mod PGSIZE_def)
qed

lemma aligned_le:
  assumes "(p::u32) mod PGSIZE = 0"
  shows "p \<le> 0xFFFFF000"
proof -
  have "unat p mod 4096 = 0" using assms by (simp add: unat_aligned)
  then obtain q where q: "unat p = 4096 * q" by (auto simp: mod_eq_0_iff_dvd)
  moreover have "unat p < 4096 * 1048576" using unsigned_less [of p, where 'a = nat] by simp
  ultimately have "q < 1048576" by simp
  then have "unat p \<le> 4294963200" using q by simp
  then show ?thesis by (simp add: word_le_nat_alt)
qed

lemma aligned_add:
  assumes "(p::u32) mod PGSIZE = 0"
  shows "(p + PGSIZE) mod PGSIZE = 0"
proof -
  have "unat p mod 4096 = 0" using assms by (simp add: unat_aligned)
  then have "(unat p + 4096) mod 4096 = 0" by simp
  moreover have "(4096::nat) dvd 4294967296" by simp
  ultimately have "((unat p + 4096) mod 4294967296) mod 4096 = 0"
    by (simp add: mod_mod_cancel)
  then show ?thesis
    by (simp add: unat_aligned) (simp add: unat_word_ariths PGSIZE_def)
qed

lemma unat_ROUNDDOWN: "unat (ROUNDDOWN a PGSIZE) = unat a div 4096 * 4096"
proof -
  have le: "a mod PGSIZE \<le> a"
    by (simp add: word_le_nat_alt unat_mod)
  have "unat (ROUNDDOWN a PGSIZE) = unat a - unat a mod 4096"
    by (simp add: ROUNDDOWN_def unat_sub [OF le]) (simp add: unat_mod PGSIZE_def)
  then show ?thesis
    by (simp add: minus_mod_eq_div_mult)
qed

lemma ROUNDDOWN_aligned: "ROUNDDOWN a PGSIZE mod PGSIZE = 0"
  by (simp add: unat_aligned unat_ROUNDDOWN)

lemma unat_page_step:
  assumes "unat page + i * 4096 < 4294967296"
  shows "unat (page + of_nat i * PGSIZE) = unat page + i * 4096"
proof -
  have "page + of_nat i * PGSIZE = of_nat (unat page + i * 4096)"
    by (simp add: PGSIZE_def)
  then show ?thesis using assms by (simp only: unat_of_nat) simp
qed

text \<open>
  A page-aligned address is at most 0xFFFFF000. With a bound above that, every page address
  is below the bound and the addition wraps around to 0: the loop does not end.
\<close>

lemma showmappings_loop_diverges:
  assumes "page mod PGSIZE = 0" and "0xFFFFF000 < e"
  shows "showmappings_loop k e page out = None"
proof (rule ccontr)
  assume "showmappings_loop k e page out \<noteq> None"
  then obtain y where y: "showmappings_loop k e page out = Some y" by auto
  have "\<not> (page mod PGSIZE = 0 \<and> 0xFFFFF000 < e)"
  proof (rule showmappings_loop.raw_induct
      [where P = "\<lambda>k e p out y. \<not> (p mod PGSIZE = 0 \<and> 0xFFFFF000 < e)", OF _ y])
    fix f k e p out y
    assume ih: "\<And>k e p out y. f k e p out = Some y \<Longrightarrow> \<not> (p mod PGSIZE = 0 \<and> 0xFFFFF000 < e)"
      and st: "(if p < e then f k e (p + PGSIZE) (out @ [PgdirWalk p, page_line k p])
                else Some out) = Some y"
    show "\<not> (p mod PGSIZE = 0 \<and> 0xFFFFF000 < e)"
    proof
      assume a: "p mod PGSIZE = 0 \<and> 0xFFFFF000 < e"
      then have "p < e" using aligned_le [of p] by (auto intro: le_less_trans)
      with st have "f k e (p + PGSIZE) (out @ [PgdirWalk p, page_line k p]) = Some y"
        by simp
      from ih [OF this] a show False by (simp add: aligned_add)
    qed
  qed
  with assms show False by simp
qed

text \<open>
  What the handler prints for start \<le> end \<le> 0xFFFFF000: the pages from the one that holds
  the start address up to the last one that begins below the end address.
\<close>

lemma showmappings_pages:
  assumes "length argv = 3"
    and "strtol k (argv ! 1) 16 = s" and "strtol k (argv ! 2) 16 = e"
    and "s \<le> e" and "e \<le> 0xFFFFF000"
  shows "mon_showmappings k argv tf
       = Some (page_events k (ROUNDDOWN s PGSIZE) ((unat e + 4095) div 4096 - unat s div 4096),
               Return 0)"
proof -
  define a where "a = unat s div 4096"
  define b where "b = (unat e + 4095) div 4096"
  let ?page = "ROUNDDOWN s PGSIZE"
  have se: "unat s \<le> unat e" and e: "unat e \<le> 4294963200"
    using assms(4,5) by (simp_all add: word_le_nat_alt)
  have a1: "a * 4096 \<le> unat s"
    by (simp add: a_def)
  have b1: "b * 4096 \<le> unat e + 4095" and b2: "unat e + 4095 < 4096 + b * 4096"
    using dividend_less_div_times [of 4096 "unat e + 4095"] by (simp_all add: b_def)
  have ab: "a \<le> b"
    unfolding a_def b_def using se by (intro div_le_mono) simp
  have pg: "unat ?page = a * 4096"
    by (simp add: unat_ROUNDDOWN a_def)
  have step: "unat (?page + of_nat i * PGSIZE) = (a + i) * 4096" if "i \<le> b - a" for i
  proof -
    have "(a + i) * 4096 \<le> b * 4096" using that ab by simp
    with b1 e have "unat ?page + i * 4096 < 4294967296" by (simp add: pg algebra_simps)
    then have "unat (?page + of_nat i * PGSIZE) = unat ?page + i * 4096"
      by (rule unat_page_step)
    then show ?thesis by (simp add: pg algebra_simps)
  qed
  have inside: "\<forall>i<b - a. ?page + of_nat i * PGSIZE < e"
  proof (intro allI impI)
    fix i assume i: "i < b - a"
    then have "(a + i) * 4096 + 4096 \<le> b * 4096" by (simp add: algebra_simps)
    with b1 have "(a + i) * 4096 < unat e" by arith
    with i show "?page + of_nat i * PGSIZE < e" by (simp add: word_less_nat_alt step)
  qed
  have "unat e \<le> (a + (b - a)) * 4096" using ab b2 by simp
  then have outside: "\<not> ?page + of_nat (b - a) * PGSIZE < e"
    by (simp add: word_less_nat_alt step)
  have "showmappings_loop k e ?page [] = Some ([] @ page_events k ?page (b - a))"
    using inside outside by (rule showmappings_loop_iterates)
  then show ?thesis
    using assms(1-4) by (simp add: mon_showmappings_def Let_def a_def b_def)
qed

text \<open>With an end address above 0xFFFFF000 the handler does not return.\<close>

lemma showmappings_never_returns:
  assumes "length argv = 3"
    and "strtol k (argv ! 1) 16 \<le> strtol k (argv ! 2) 16"
    and "0xFFFFF000 < strtol k (argv ! 2) 16"
  shows "mon_showmappings k argv tf = None"
  using assms
  by (simp add: mon_showmappings_def Let_def showmappings_loop_diverges ROUNDDOWN_aligned)

lemma showmappings_top_page:
  "runcmd (commands kern0) ''showmappings 0 ffffffff'' None = None"
proof -
  have "runcmd (commands kern0) ''showmappings 0 ffffffff'' None
      = mon_showmappings kern0 [''showmappings'', ''0'', ''ffffffff''] None"
    using runcmd_separated [of "[]" "[(''showmappings'', '' ''), (''0'', '' ''), (''ffffffff'', [])]"
        "commands kern0" None]
    by (simp add: is_gap_def is_token_def WHITESPACE_def commands_def)
  moreover have "strtol kern0 ''0'' 16 = 0" "strtol kern0 ''ffffffff'' 16 = 0xFFFFFFFF"
    by code_simp+
  ultimately show ?thesis
    by (simp add: showmappings_never_returns)
qed

text \<open>An empty range at a page-aligned address prints nothing.\<close>

lemma showmappings_empty_range_aligned:
  assumes "length argv = 3"
    and "strtol k (argv ! 1) 16 = a" and "strtol k (argv ! 2) 16 = a" and "a mod PGSIZE = 0"
  shows "mon_showmappings k argv tf = Some ([], Return 0)"
proof -
  have "ROUNDDOWN a PGSIZE = a"
    using assms(4) by (simp add: ROUNDDOWN_def)
  moreover have "showmappings_loop k a a [] = Some []"
    by (subst showmappings_loop.simps) simp
  ultimately show ?thesis
    using assms(1-3) by (simp add: mon_showmappings_def Let_def)
qed

text \<open>
  C4. Claimed: \<open>showmappings a a\<close> prints no per-page line and makes no page-table query,
  for every address a. mon_showmappings computes \<open>end_page = ROUNDDOWN(end_addr, PGSIZE)\<close>
  and then bounds its loop by \<open>end_addr\<close>, so an address inside a page is above its own
  rounded start: \<open>showmappings 1 1\<close> queries the page table once and prints the line of
  page 0.
\<close>

theorem showmappings_empty_range_unaligned:
  "strtol kern0 ''1'' 16 = 1
   \<and> ROUNDDOWN 1 PGSIZE = 0
   \<and> runcmd (commands kern0) ''showmappings 1 1'' None
       = Some ([PgdirWalk 0, page_line kern0 0], Return 0)"
  by code_simp

text \<open>
  C5. Claimed: showmappings prints one line per page of
  [pageFloor(start), pageFloor(end)), that is (pageFloor(end) - pageFloor(start)) / pageSize
  lines. With the loop bounded by \<open>end_addr\<close> instead of \<open>end_page\<close>, the page that holds
  an unaligned end address is printed as well: \<open>showmappings 0 1\<close> prints one line, where
  the claimed count is 0.
\<close>

theorem showmappings_unaligned_end:
  "strtol kern0 ''0'' 16 = 0
   \<and> strtol kern0 ''1'' 16 = 1
   \<and> (ROUNDDOWN 1 PGSIZE - ROUNDDOWN 0 PGSIZE) div PGSIZE = 0
   \<and> runcmd (commands kern0) ''showmappings 0 1'' None
       = Some ([PgdirWalk 0, page_line kern0 0], Return 0)"
  by code_simp

text \<open>
  C6. showmappings with two address arguments, the end below the start: the handler
  prints its error message and nothing else, makes no page-table query, and returns -1.
\<close>

theorem showmappings_end_before_start:
  assumes "length argv = 3" and "strtol k (argv ! 2) 16 < strtol k (argv ! 1) 16"
  shows "mon_showmappings k argv tf
           = Some ([Cprintf ''start_addr cannot exceed end_addr'' []], Return (- 1))"
  using assms by (simp add: mon_showmappings_def)

theorem showmappings_end_before_start_witness:
  "length [''showmappings'', ''2000'', ''1fff''] = 3
   \<and> strtol kern0 ([''showmappings'', ''2000'', ''1fff''] ! 2) 16
       < strtol kern0 ([''showmappings'', ''2000'', ''1fff''] ! 1) 16
   \<and> mon_showmappings kern0 [''showmappings'', ''2000'', ''1fff''] None
       = Some ([Cprintf ''start_addr cannot exceed end_addr'' []], Return (- 1))"
proof -
  have l: "length [''showmappings'', ''2000'', ''1fff''] = 3" by simp
  have c: "strtol kern0 ([''showmappings'', ''2000'', ''1fff''] ! 2) 16
       < strtol kern0 ([''showmappings'', ''2000'', ''1fff''] ! 1) 16"
    by code_simp
  from showmappings_end_before_start [OF l c, of None] show ?thesis using l c by simp
qed

section \<open>continue and si\<close>

lemma bit_trace_flag: "bit (push_bit 8 1 :: u32) n \<longleftrightarrow> n = 8"
  unfolding bit_push_bit_iff bit_1_iff possible_bit_word by auto

lemma bit_trace_mask: "bit (NOT (push_bit 8 1) :: u32) n \<longleftrightarrow> n < 32 \<and> n \<noteq> 8"
  unfolding bit_not_iff bit_trace_flag possible_bit_word by simp

lemma bit_trace_cleared: "bit (w AND NOT (push_bit 8 1) :: u32) n \<longleftrightarrow> bit w n \<and> n \<noteq> 8"
  unfolding bit_and_iff bit_trace_mask by (auto dest: bit_imp_le_length)

lemma bit_trace_set: "bit (w OR push_bit 8 1 :: u32) n \<longleftrightarrow> bit w n \<or> n = 8"
  unfolding bit_or_iff bit_trace_flag by simp

text \<open>The lines \<open>continue\<close>, \<open>c\<close> and \<open>si\<close> reach their handlers with argc = 1.\<close>

lemma runcmd_continue:
  "runcmd (commands k) ''continue'' tf = mon_continue [''continue''] tf"
  "runcmd (commands k) ''c'' tf = mon_continue [''c''] tf"
  by (simp_all add: runcmd_one_token is_token_def WHITESPACE_def commands_def)

lemma runcmd_si: "runcmd (commands k) ''si'' tf = mon_si [''si''] tf"
  by (simp add: runcmd_one_token is_token_def WHITESPACE_def commands_def)

text \<open>
  C7. continue (or c), entered on a breakpoint or single-step trap: the handler calls
  env_run on the saved context, in which bit 8 of the flags is cleared if and only if the
  trap was the single-step trap; no other bit of the flags changes, and after a
  breakpoint trap the context is the one that came in.
\<close>

theorem continue_clears_trace_flag_on_debug:
  assumes "tf_trapno t = T_BRKPT \<or> tf_trapno t = T_DEBUG"
  shows "(\<exists>t'. mon_continue [cmd] (Some t) = Some ([], EnvRun t')
           \<and> tf_trapno t' = tf_trapno t
           \<and> (\<forall>n. n \<noteq> 8 \<longrightarrow> bit (tf_eflags t') n = bit (tf_eflags t) n)
           \<and> (bit (tf_eflags t') 8 \<longleftrightarrow> bit (tf_eflags t) 8 \<and> tf_trapno t \<noteq> T_DEBUG)
           \<and> (tf_trapno t = T_BRKPT \<longrightarrow> t' = t))
       \<and> runcmd (commands k) ''continue'' (Some t) = mon_continue [''continue''] (Some t)
       \<and> runcmd (commands k) ''c'' (Some t) = mon_continue [''c''] (Some t)"
proof (cases "tf_trapno t = T_DEBUG")
  case True
  let ?t' = "t\<lparr>tf_eflags := tf_eflags t AND NOT (push_bit 8 1)\<rparr>"
  have "mon_continue [cmd] (Some t) = Some ([], EnvRun ?t')"
    using True by (simp add: mon_continue_def)
  moreover have "bit (tf_eflags ?t') n \<longleftrightarrow> bit (tf_eflags t) n \<and> n \<noteq> 8" for n
    using bit_trace_cleared [of "tf_eflags t" n] by simp
  moreover have "tf_trapno t \<noteq> T_BRKPT"
    using True by (simp add: T_DEBUG_def T_BRKPT_def)
  ultimately have "\<exists>t'. mon_continue [cmd] (Some t) = Some ([], EnvRun t')
           \<and> tf_trapno t' = tf_trapno t
           \<and> (\<forall>n. n \<noteq> 8 \<longrightarrow> bit (tf_eflags t') n = bit (tf_eflags t) n)
           \<and> (bit (tf_eflags t') 8 \<longleftrightarrow> bit (tf_eflags t) 8 \<and> tf_trapno t \<noteq> T_DEBUG)
           \<and> (tf_trapno t = T_BRKPT \<longrightarrow> t' = t)"
    using True by (intro exI [of _ ?t']) simp
  then show ?thesis by (simp only: runcmd_continue simp_thms)
next
  case False
  with assms have "mon_continue [cmd] (Some t) = Some ([], EnvRun t)"
    by (simp add: mon_continue_def)
  with False show ?thesis by (simp add: runcmd_continue)
qed

theorem continue_clears_trace_flag_on_debug_witness:
  "(tf_trapno \<lparr>tf_trapno = 1, tf_eflags = 0x302\<rparr> = T_BRKPT
      \<or> tf_trapno \<lparr>tf_trapno = 1, tf_eflags = 0x302\<rparr> = T_DEBUG)
   \<and> runcmd (commands kern0) ''continue'' (Some \<lparr>tf_trapno = 1, tf_eflags = 0x302\<rparr>)
       = Some ([], EnvRun \<lparr>tf_trapno = 1, tf_eflags = 0x202\<rparr>)"
proof -
  have h: "tf_trapno \<lparr>tf_trapno = 1, tf_eflags = 0x302\<rparr> = T_BRKPT
      \<or> tf_trapno \<lparr>tf_trapno = 1, tf_eflags = 0x302\<rparr> = T_DEBUG"
    by (simp add: T_DEBUG_def)
  from continue_clears_trace_flag_on_debug [OF h, of "''continue''" kern0]
  show ?thesis using h by (simp add: mon_continue_def T_DEBUG_def T_BRKPT_def)
qed

text \<open>
  C8. si, entered on a breakpoint or single-step trap: the handler calls env_run on the
  saved context with bit 8 of the flags set, whichever of the two traps it was; no other
  bit of the flags changes.
\<close>

theorem si_sets_trace_flag:
  assumes "tf_trapno t = T_BRKPT \<or> tf_trapno t = T_DEBUG"
  shows "(\<exists>t'. mon_si [cmd] (Some t) = Some ([], EnvRun t')
           \<and> tf_trapno t' = tf_trapno t
           \<and> (\<forall>n. n \<noteq> 8 \<longrightarrow> bit (tf_eflags t') n = bit (tf_eflags t) n)
           \<and> bit (tf_eflags t') 8)
       \<and> runcmd (commands k) ''si'' (Some t) = mon_si [''si''] (Some t)"
proof -
  let ?t' = "t\<lparr>tf_eflags := tf_eflags t OR push_bit 8 1\<rparr>"
  have "mon_si [cmd] (Some t) = Some ([], EnvRun ?t')"
    using assms by (auto simp: mon_si_def)
  moreover have "bit (tf_eflags ?t') n \<longleftrightarrow> bit (tf_eflags t) n \<or> n = 8" for n
    using bit_trace_set [of "tf_eflags t" n] by simp
  ultimately have "\<exists>t'. mon_si [cmd] (Some t) = Some ([], EnvRun t')
           \<and> tf_trapno t' = tf_trapno t
           \<and> (\<forall>n. n \<noteq> 8 \<longrightarrow> bit (tf_eflags t') n = bit (tf_eflags t) n)
           \<and> bit (tf_eflags t') 8"
    by (intro exI [of _ ?t']) simp
  then show ?thesis by (simp only: runcmd_si simp_thms)
qed

theorem si_sets_trace_flag_witness:
  "(tf_trapno \<lparr>tf_trapno = 3, tf_eflags = 0x202\<rparr> = T_BRKPT
      \<or> tf_trapno \<lparr>tf_trapno = 3, tf_eflags = 0x202\<rparr> = T_DEBUG)
   \<and> runcmd (commands kern0) ''si'' (Some \<lparr>tf_trapno = 3, tf_eflags = 0x202\<rparr>)
       = Some ([], EnvRun \<lparr>tf_trapno = 3, tf_eflags = 0x302\<rparr>)"
proof -
  have h: "tf_trapno \<lparr>tf_trapno = 3, tf_eflags = 0x202\<rparr> = T_BRKPT
      \<or> tf_trapno \<lparr>tf_trapno = 3, tf_eflags = 0x202\<rparr> = T_DEBUG"
    by (simp add: T_BRKPT_def)
  from si_sets_trace_flag [OF h, of "''si''" kern0]
  show ?thesis using h by (simp add: mon_si_def T_DEBUG_def T_BRKPT_def)
qed

text \<open>
  C9. Claimed: every invocation of continue or si on a saved context whose trap is
  neither the breakpoint nor the single-step trap panics. Both handlers check argc first:
  \<open>continue x\<close> prints the usage line and returns -1 whatever the trap is. Invoked with no
  argument beyond its name, each of them panics on such a context, and the loop of
  monitor reads nothing further.
\<close>

theorem unexpected_trap_panics:
  assumes "tf_trapno t \<noteq> T_BRKPT" and "tf_trapno t \<noteq> T_DEBUG"
  shows "mon_continue [cmd] (Some t) = Some ([], Panic ''mon_continue: unexpected trap!'')
       \<and> mon_si [cmd] (Some t) = Some ([], Panic ''mon_si: unexpected trap!'')
       \<and> monitor_loop (commands k) (Some t) (Some ''continue'' # rest)
           = Some ([Readline ''K> ''], Left (Panic ''mon_continue: unexpected trap!''))
       \<and> monitor_loop (commands k) (Some t) (Some ''c'' # rest)
           = Some ([Readline ''K> ''], Left (Panic ''mon_continue: unexpected trap!''))
       \<and> monitor_loop (commands k) (Some t) (Some ''si'' # rest)
           = Some ([Readline ''K> ''], Left (Panic ''mon_si: unexpected trap!''))"
proof -
  have "mon_continue [cmd] (Some t) = Some ([], Panic ''mon_continue: unexpected trap!'')"
    "mon_si [cmd] (Some t) = Some ([], Panic ''mon_si: unexpected trap!'')" for cmd
    using assms by (simp_all add: mon_continue_def mon_si_def)
  then show ?thesis by (simp add: runcmd_continue runcmd_si)
qed

theorem unexpected_trap_panics_witness:
  "tf_trapno \<lparr>tf_trapno = 14, tf_eflags = 2\<rparr> \<noteq> T_BRKPT
   \<and> tf_trapno \<lparr>tf_trapno = 14, tf_eflags = 2\<rparr> \<noteq> T_DEBUG
   \<and> monitor_loop (commands kern0) (Some \<lparr>tf_trapno = 14, tf_eflags = 2\<rparr>)
        [Some ''continue'', Some ''help'']
       = Some ([Readline ''K> ''], Left (Panic ''mon_continue: unexpected trap!''))"
proof -
  have h: "tf_trapno \<lparr>tf_trapno = 14, tf_eflags = 2\<rparr> \<noteq> T_BRKPT"
    "tf_trapno \<lparr>tf_trapno = 14, tf_eflags = 2\<rparr> \<noteq> T_DEBUG"
    by (simp_all add: T_BRKPT_def T_DEBUG_def)
  from unexpected_trap_panics [OF h, of "''continue''" kern0 "[Some ''help'']"]
  show ?thesis using h by simp
qed

theorem usage_error_before_trap_check_counterexample:
  "tf_trapno \<lparr>tf_trapno = 14, tf_eflags = 2\<rparr> \<noteq> T_BRKPT
   \<and> tf_trapno \<lparr>tf_trapno = 14, tf_eflags = 2\<rparr> \<noteq> T_DEBUG
   \<and> runcmd (commands kern0) ''continue x'' (Some \<lparr>tf_trapno = 14, tf_eflags = 2\<rparr>)
       = Some ([Cprintf ''Usage: continue'' []], Return (- 1))
   \<and> runcmd (commands kern0) ''si x'' (Some \<lparr>tf_trapno = 14, tf_eflags = 2\<rparr>)
       = Some ([Cprintf ''Usage: si'' []], Return (- 1))"
  by code_simp

text \<open>
  C10. continue and si with argc = 1 read \<open>tf->tf_trapno\<close> with no null check before it:
  with a null context the read goes through the null pointer. monitor accepts a null
  context (it only skips print_trapframe), so the lines \<open>continue\<close>, \<open>c\<close> and \<open>si\<close> typed
  into a monitor entered with tf = NULL end in that read.
\<close>

theorem null_context_dereferenced:
  "mon_continue [cmd] None = Some ([], NullDeref)
   \<and> mon_si [cmd] None = Some ([], NullDeref)
   \<and> monitor (commands k) None (Some ''continue'' # rest)
       = Some ([Cprintf ''Welcome to the JOS kernel monitor!'' [],
                Cprintf ''Type 'help' for a list of commands.'' [],
                Readline ''K> ''], Left NullDeref)
   \<and> monitor (commands k) None (Some ''c'' # rest)
       = Some ([Cprintf ''Welcome to the JOS kernel monitor!'' [],
                Cprintf ''Type 'help' for a list of commands.'' [],
                Readline ''K> ''], Left NullDeref)
   \<and> monitor (commands k) None (Some ''si'' # rest)
       = Some ([Cprintf ''Welcome to the JOS kernel monitor!'' [],
                Cprintf ''Type 'help' for a list of commands.'' [],
                Readline ''K> ''], Left NullDeref)"
proof -
  have "mon_continue [cmd] None = Some ([], NullDeref)" "mon_si [cmd] None = Some ([], NullDeref)"
    for cmd
    by (simp_all add: mon_continue_def mon_si_def)
  then show ?thesis by (simp add: monitor_def emit_def runcmd_continue runcmd_si)
qed

end
